theory Spec2Isabelle
  imports Complex_Main
begin

section \<open>Math2d: vectors and matrices\<close>

text \<open>
  The game in \<^verbatim>\<open>main.ts\<close> computes with the vector and matrix classes of the
  \<^verbatim>\<open>Math2d\<close> namespace, whose code is not part of \<^verbatim>\<open>main.ts\<close>. The operations
  below are the ones \<^verbatim>\<open>main.ts\<close> calls, with the meaning the specification gives
  them. Numbers are exact reals here; \<^verbatim>\<open>calcVelocity\<close> is modelled a second time
  further down with the rounding of the program's double arithmetic.

  A vector is a mutable object in the program. \<^verbatim>\<open>add\<close> and \<^verbatim>\<open>scale\<close> are used
  for their return value and give a new vector; \<^verbatim>\<open>setX\<close>, \<^verbatim>\<open>setY\<close> and
  \<^verbatim>\<open>normalize\<close> are called as statements and change the receiver. Every vector
  that \<^verbatim>\<open>main.ts\<close> changes in place is a local one that was created just before,
  so the model passes vectors by value and the in-place operations return the
  changed vector.
\<close>

datatype Vector = Vector (getX: real) (getY: real)

text \<open>Modelled from the spec: \<^verbatim>\<open>Math2d.Vector.create\<close>, the vector with the two given coordinates.\<close>

definition create :: "real \<Rightarrow> real \<Rightarrow> Vector" where
  "create a b = Vector a b"

text \<open>Modelled from the spec: \<^verbatim>\<open>Math2d.Vector.zero\<close>, a new vector with both coordinates zero.\<close>

definition zero :: Vector where
  "zero = Vector 0 0"

text \<open>Modelled from the spec: \<^verbatim>\<open>Vector.setX\<close> and \<^verbatim>\<open>Vector.setY\<close>, which overwrite one coordinate.\<close>

definition setX :: "Vector \<Rightarrow> real \<Rightarrow> Vector" where
  "setX v a = Vector a (getY v)"

definition setY :: "Vector \<Rightarrow> real \<Rightarrow> Vector" where
  "setY v b = Vector (getX v) b"

text \<open>Modelled from the spec: \<^verbatim>\<open>Vector.add\<close>, component-wise, no failure modes.\<close>

definition add :: "Vector \<Rightarrow> Vector \<Rightarrow> Vector" where
  "add v u = Vector (getX v + getX u) (getY v + getY u)"

text \<open>Modelled from the spec: \<^verbatim>\<open>Vector.scale\<close>, component-wise multiplication by a scalar.\<close>

definition scale :: "Vector \<Rightarrow> real \<Rightarrow> Vector" where
  "scale v k = Vector (getX v * k) (getY v * k)"

text \<open>Modelled from the spec: \<^verbatim>\<open>Vector.magSquared\<close>, the sum of the squared components.\<close>

definition magSquared :: "Vector \<Rightarrow> real" where
  "magSquared v = getX v * getX v + getY v * getY v"

text \<open>Modelled from the spec: the magnitude of a vector, the square root of \<^verbatim>\<open>magSquared\<close>.\<close>

definition mag :: "Vector \<Rightarrow> real" where
  "mag v = sqrt (magSquared v)"

text \<open>
  Modelled from the spec: \<^verbatim>\<open>Vector.normalize\<close>, which rescales to unit magnitude and,
  when the magnitude is zero, returns the zero vector unchanged rather than dividing
  by zero.
\<close>

definition normalize_vec :: "Vector \<Rightarrow> Vector" where
  "normalize_vec v = (if mag v = 0 then v else Vector (getX v / mag v) (getY v / mag v))"

text \<open>
  Modelled from the spec: \<^verbatim>\<open>Math2d.Matrix\<close>, a 2D affine transform: a linear part (four
  entries, row by row) and a translation.
\<close>

datatype Matrix = Matrix (m00: real) (m01: real) (m10: real) (m11: real) (tx: real) (ty: real)

text \<open>Modelled from the spec: \<^verbatim>\<open>Math2d.Matrix.identity\<close>.\<close>

definition identity :: Matrix where
  "identity = Matrix 1 0 0 1 0 0"

text \<open>
  Modelled from the spec: \<^verbatim>\<open>Math2d.createRotationAndTranslationMatrixRadians\<close>, the rotation
  by an angle followed by a translation.
\<close>

definition createRotationAndTranslationMatrixRadians :: "real \<Rightarrow> Vector \<Rightarrow> Matrix" where
  "createRotationAndTranslationMatrixRadians a t =
     Matrix (cos a) (- sin a) (sin a) (cos a) (getX t) (getY t)"

text \<open>Modelled from the spec: \<^verbatim>\<open>Math2d.createRotationMatrixDegrees\<close>, a pure rotation, the angle in degrees.\<close>

definition createRotationMatrixDegrees :: "real \<Rightarrow> Matrix" where
  "createRotationMatrixDegrees d = createRotationAndTranslationMatrixRadians (d * pi / 180) zero"

text \<open>Modelled from the spec: \<^verbatim>\<open>Matrix.apply\<close>, the affine transform of a vector.\<close>

definition apply_matrix :: "Matrix \<Rightarrow> Vector \<Rightarrow> Vector" where
  "apply_matrix m v =
     Vector (m00 m * getX v + m01 m * getY v + tx m) (m10 m * getX v + m11 m * getY v + ty m)"

text \<open>
  Modelled from the spec: \<^verbatim>\<open>Matrix.mul\<close>, the composition that applies the operand's
  rotation and then the receiver's, and keeps the translation of the receiver, not of
  the operand.
\<close>

definition mul :: "Matrix \<Rightarrow> Matrix \<Rightarrow> Matrix" where
  "mul m n =
     Matrix (m00 m * m00 n + m01 m * m10 n) (m00 m * m01 n + m01 m * m11 n)
            (m10 m * m00 n + m11 m * m10 n) (m10 m * m01 n + m11 m * m11 n)
            (tx m) (ty m)"

section \<open>Arrays\<close>

text \<open>
  An array element that was never written reads as \<^verbatim>\<open>undefined\<close>; so does an index out
  of range. An array of vectors is a list of optional vectors, \<open>None\<close> standing for
  \<^verbatim>\<open>undefined\<close>. Calling a method on \<^verbatim>\<open>undefined\<close> is an error.
\<close>

datatype error = TypeError

type_synonym 'a array = "'a option list"

definition array_get :: "'a array \<Rightarrow> int \<Rightarrow> 'a option" where
  "array_get xs i = (if 0 \<le> i \<and> nat i < length xs then xs ! nat i else None)"

text \<open>An assignment \<^verbatim>\<open>xs[i] = v\<close> beyond the end extends the array.\<close>

definition array_set :: "'a array \<Rightarrow> nat \<Rightarrow> 'a \<Rightarrow> 'a array" where
  "array_set xs i v =
     (if i < length xs then xs[i := Some v]
      else xs @ replicate (i - length xs) None @ [Some v])"

text \<open>
  \<^verbatim>\<open>insertAt\<close> and \<^verbatim>\<open>removeAt\<close> of the list of shapes. \<^verbatim>\<open>removeAt\<close> with an index that
  is not a position of the list removes nothing.
\<close>

definition insertAt :: "'a list \<Rightarrow> int \<Rightarrow> 'a \<Rightarrow> 'a list" where
  "insertAt xs i v = take (nat i) xs @ [v] @ drop (nat i) xs"

definition removeAt :: "'a list \<Rightarrow> int \<Rightarrow> 'a list" where
  "removeAt xs i =
     (if 0 \<le> i \<and> nat i < length xs then take (nat i) xs @ drop (Suc (nat i)) xs else xs)"

section \<open>World and Shape\<close>

text \<open>
  Shapes are objects: the world's list holds references to them, and \<^verbatim>\<open>add\<close> and
  \<^verbatim>\<open>remove\<close> write the \<^verbatim>\<open>sceneIndex\<close> field of the object they are given. A
  reference is a number and the objects live in a store.
\<close>

type_synonym ref = nat

record World =
  gravity :: Vector
  toScreen :: Matrix
  shapes :: "ref list"

text \<open>
  The field \<^verbatim>\<open>points\<close> of a shape is declared but not assigned by the constructor of
  \<^verbatim>\<open>Shape\<close>: it is \<open>None\<close> (\<^verbatim>\<open>undefined\<close>) until a subclass assigns it.
\<close>

record Shape =
  points :: "Vector array option"
  renderPoints :: "Vector array"
  worldPos :: Vector
  xform :: Matrix
  sceneIndex :: int

definition World_new :: World where
  "World_new =
     \<lparr> gravity = create 0 (- 0.02),
       toScreen = createRotationAndTranslationMatrixRadians pi (create 80 60),
       shapes = [] \<rparr>"

definition Shape_new :: Shape where
  "Shape_new =
     \<lparr> points = None,
       renderPoints = [],
       worldPos = zero,
       xform = identity,
       sceneIndex = - 1 \<rparr>"

type_synonym 'a store = "ref \<Rightarrow> 'a Shape_scheme"

definition World_add :: "World \<times> 'a store \<Rightarrow> ref \<Rightarrow> World \<times> 'a store" where
  "World_add st s =
     (let w = fst st;
          h = snd st;
          h1 = h(s := (h s)\<lparr>sceneIndex := int (length (shapes w))\<rparr>);
          w1 = w\<lparr>shapes := insertAt (shapes w) (sceneIndex (h1 s)) s\<rparr>
      in (w1, h1))"

definition World_remove :: "World \<times> 'a store \<Rightarrow> ref \<Rightarrow> World \<times> 'a store" where
  "World_remove st s =
     (let w = fst st;
          h = snd st;
          w1 = w\<lparr>shapes := removeAt (shapes w) (sceneIndex (h s))\<rparr>;
          h1 = h(s := (h s)\<lparr>sceneIndex := - 1\<rparr>)
      in (w1, h1))"

text \<open>
  A world with two plain shapes, the objects at references 0 and 1, added in this
  order to the world the constructor makes.
\<close>

definition two_shapes :: "World \<times> unit store" where
  "two_shapes = World_add (World_add (World_new, \<lambda>r. Shape_new) 0) 1"

text \<open>
  One round of the loop of \<^verbatim>\<open>Shape.update\<close>: the point at index \<open>i\<close> goes through the
  shape's transform, the translation by \<^verbatim>\<open>worldPos\<close> and the world's screen transform,
  and is stored at index \<open>i\<close> of \<^verbatim>\<open>renderPoints\<close>.
\<close>

definition Shape_update_step :: "World \<Rightarrow> nat \<Rightarrow> 'a Shape_scheme \<Rightarrow> error + 'a Shape_scheme" where
  "Shape_update_step w i s =
     (case points s of
        None \<Rightarrow> Inl TypeError
      | Some ps \<Rightarrow>
          (case array_get ps (int i) of
             None \<Rightarrow> Inl TypeError
           | Some p \<Rightarrow>
               (let point = apply_matrix (xform s) p;
                    point = add point (worldPos s);
                    point = apply_matrix (toScreen w) point
                in Inr (s\<lparr>renderPoints := array_set (renderPoints s) i point\<rparr>))))"

function Shape_update_from :: "World \<Rightarrow> nat \<Rightarrow> 'a Shape_scheme \<Rightarrow> error + 'a Shape_scheme" where
  "Shape_update_from w i s =
     (if i < 4 then
        (case Shape_update_step w i s of
           Inl e \<Rightarrow> Inl e
         | Inr s1 \<Rightarrow> Shape_update_from w (Suc i) s1)
      else Inr s)"
  by pat_completeness auto
termination
  by (relation "measure (\<lambda>(w, i, s). 4 - i)") auto

definition Shape_update :: "World \<Rightarrow> 'a Shape_scheme \<Rightarrow> error + 'a Shape_scheme" where
  "Shape_update w s = Shape_update_from w 0 s"

text \<open>
  Drawing. The image is the list of the lines drawn on it, each with its two end
  points and its thickness.
\<close>

datatype Line = Line real real real real real

type_synonym Image = "Line list"

definition drawLine :: "'a Shape_scheme \<Rightarrow> Image \<Rightarrow> int \<Rightarrow> int \<Rightarrow> error + Image" where
  "drawLine s i f t =
     (case array_get (renderPoints s) f of
        None \<Rightarrow> Inl TypeError
      | Some pf \<Rightarrow>
          (case array_get (renderPoints s) t of
             None \<Rightarrow> Inl TypeError
           | Some pt \<Rightarrow> Inr (i @ [Line (getX pf) (getY pf) (getX pt) (getY pt) 2])))"

function Shape_render_from :: "'a Shape_scheme \<Rightarrow> int \<Rightarrow> int \<Rightarrow> Image \<Rightarrow> error + Image" where
  "Shape_render_from s n j i =
     (if j < n - 1 then
        (case drawLine s i j (j + 1) of
           Inl e \<Rightarrow> Inl e
         | Inr i1 \<Rightarrow> Shape_render_from s n (j + 1) i1)
      else Inr i)"
  by pat_completeness auto
termination
  by (relation "measure (\<lambda>(s, n, j, i). nat (n - 1 - j))") auto

definition Shape_render :: "'a Shape_scheme \<Rightarrow> Image \<Rightarrow> error + Image" where
  "Shape_render s i =
     (case points s of
        None \<Rightarrow> Inl TypeError
      | Some ps \<Rightarrow>
          (case Shape_render_from s (int (length ps)) 0 i of
             Inl e \<Rightarrow> Inl e
           | Inr i1 \<Rightarrow> drawLine s i1 (int (length ps) - 1) 0))"

text \<open>
  The indices of \<^verbatim>\<open>renderPoints\<close> that \<^verbatim>\<open>Shape.render\<close> passes to \<^verbatim>\<open>drawLine\<close> for a
  shape of \<open>n\<close> points, in the order of the calls: the pairs of the loop from \<open>j\<close> on,
  then the closing pair.
\<close>

function render_pairs_from :: "int \<Rightarrow> int \<Rightarrow> (int \<times> int) list" where
  "render_pairs_from n j =
     (if j < n - 1 then (j, j + 1) # render_pairs_from n (j + 1) else [])"
  by pat_completeness auto
termination
  by (relation "measure (\<lambda>(n, j). nat (n - 1 - j))") auto

text \<open>
  The two loops of \<^verbatim>\<open>render\<close> are bounded by a number of points that is not known
  in advance; their equations are unfolded by hand, one round at a time.
\<close>

declare Shape_render_from.simps [simp del]

declare render_pairs_from.simps [simp del]

definition render_pairs :: "int \<Rightarrow> (int \<times> int) list" where
  "render_pairs n = render_pairs_from n 0 @ [(n - 1, 0)]"

definition render_reads :: "int \<Rightarrow> int set" where
  "render_reads n = fst ` set (render_pairs n) \<union> snd ` set (render_pairs n)"

text \<open>The calls to \<^verbatim>\<open>drawLine\<close> for a list of index pairs, one after the other.\<close>

fun draw_all :: "'a Shape_scheme \<Rightarrow> Image \<Rightarrow> (int \<times> int) list \<Rightarrow> error + Image" where
  "draw_all s i [] = Inr i"
| "draw_all s i (ft # fts) =
     (case drawLine s i (fst ft) (snd ft) of
        Inl e \<Rightarrow> Inl e
      | Inr i1 \<Rightarrow> draw_all s i1 fts)"

text \<open>Two plain shapes whose number of points is not four.\<close>

definition pentagon :: Shape where
  "pentagon =
     Shape_new\<lparr>points :=
       Some [Some (create 0 8), Some (create 4 0), Some (create 2 (- 4)),
             Some (create (- 2) (- 4)), Some (create (- 4) 0)]\<rparr>"

definition triangle :: Shape where
  "triangle =
     Shape_new\<lparr>points := Some [Some (create 0 8), Some (create 4 0), Some (create (- 4) 0)]\<rparr>"

section \<open>Craft\<close>

text \<open>
  The tuning constants are \<^verbatim>\<open>readonly\<close> fields that the constructor of \<^verbatim>\<open>Craft\<close> sets
  once; they are constants of the model.
\<close>

definition maxDownSpeed :: real where
  "maxDownSpeed = - 0.5"

definition maxAirSpeed :: real where
  "maxAirSpeed = 0.8"

definition maxAccel :: real where
  "maxAccel = 0.04"

definition maxAirSpeedSq :: real where
  "maxAirSpeedSq = maxAirSpeed * maxAirSpeed"

definition maxAccelSq :: real where
  "maxAccelSq = maxAccel * maxAccel"

record Craft = Shape +
  heading :: Vector
  vel :: Vector
  thrust :: Vector
  thrusting :: bool
  beganThrusting :: bool
  stoppedThrusting :: bool

text \<open>
  The constructor of \<^verbatim>\<open>Craft\<close>: the fields of the shape as \<^verbatim>\<open>super()\<close> leaves
  them, with \<^verbatim>\<open>points\<close> assigned after it, then the fields of the craft.
\<close>

definition Craft_new :: Craft where
  "Craft_new =
     \<lparr> points =
         Some [Some (create 0 8), Some (create 4 0), Some (create 0 (- 2)), Some (create (- 4) 0)],
       renderPoints = renderPoints Shape_new,
       worldPos = worldPos Shape_new,
       xform = xform Shape_new,
       sceneIndex = sceneIndex Shape_new,
       heading = create 0 1,
       vel = zero,
       thrust = zero,
       thrusting = False,
       beganThrusting = False,
       stoppedThrusting = False \<rparr>"

definition calcVelocity :: "World \<Rightarrow> 'a Craft_scheme \<Rightarrow> Vector" where
  "calcVelocity w c =
     (let accel = add (thrust c) (gravity w);
          newVel = add (vel c) accel;
          newVel = (if getY newVel < maxDownSpeed then setY newVel maxDownSpeed else newVel);
          newVel = (if magSquared newVel > maxAirSpeedSq
                    then scale (normalize_vec newVel) maxAirSpeed else newVel)
      in newVel)"

definition bounceOffSides :: "Vector \<Rightarrow> Vector \<Rightarrow> Vector" where
  "bounceOffSides pos v =
     (let maybePos = add pos v;
          impulse = zero;
          impulse = (if getX maybePos > 76 then setX impulse (- maxAirSpeed)
                     else if getX maybePos < - 76 then setX impulse maxAirSpeed
                     else impulse);
          impulse = (if getY maybePos > 56 then setY impulse (- maxAirSpeed)
                     else if getY maybePos < - 56 then setY impulse maxAirSpeed
                     else impulse);
          impulse = normalize_vec impulse;
          impulse = scale impulse maxAirSpeed
      in impulse)"

text \<open>The calls to the effect system, in the order they are made.\<close>

datatype effect = StartEffect | ClearParticles

definition updateEffects :: "'a Craft_scheme \<Rightarrow> effect list \<times> 'a Craft_scheme" where
  "updateEffects c =
     ((if beganThrusting c then [StartEffect]
       else if stoppedThrusting c then [ClearParticles]
       else []),
      c\<lparr>beganThrusting := False, stoppedThrusting := False\<rparr>)"

definition applyThrust :: "'a Craft_scheme \<Rightarrow> 'a Craft_scheme" where
  "applyThrust c =
     (let c1 = (if \<not> thrusting c then c\<lparr>beganThrusting := True\<rparr> else c)
      in c1\<lparr>thrust := scale (heading c1) 0.08, thrusting := True\<rparr>)"

definition releaseThrust :: "'a Craft_scheme \<Rightarrow> 'a Craft_scheme" where
  "releaseThrust c =
     (let c1 = (if thrusting c then c\<lparr>stoppedThrusting := True\<rparr> else c)
      in c1\<lparr>thrust := scale (thrust c1) 0.6, thrusting := False\<rparr>)"

text \<open>The buttons of the controller, as \<^verbatim>\<open>isPressed\<close> reads them during one update.\<close>

record Controller =
  A_isPressed :: bool
  left_isPressed :: bool
  right_isPressed :: bool

definition handleInput :: "Controller \<Rightarrow> 'a Craft_scheme \<Rightarrow> 'a Craft_scheme" where
  "handleInput ctl c =
     (let c1 = (if A_isPressed ctl then applyThrust c else releaseThrust c);
          sign = (if left_isPressed ctl then - 1 else if right_isPressed ctl then 1 else 0);
          rotate = createRotationMatrixDegrees (sign * 1.5)
      in c1\<lparr>xform := mul (xform c1) rotate\<rparr>)"

definition Craft_update ::
  "Controller \<Rightarrow> World \<Rightarrow> 'a Craft_scheme \<Rightarrow> error + (effect list \<times> 'a Craft_scheme)" where
  "Craft_update ctl w c =
     (case Shape_update w c of
        Inl e \<Rightarrow> Inl e
      | Inr c1 \<Rightarrow>
          (let c2 = handleInput ctl c1;
               pos = worldPos c2;
               newVel = calcVelocity w c2;
               impulse = bounceOffSides pos newVel;
               newVel = add newVel impulse;
               pos = add pos newVel;
               (effs, c3) = updateEffects c2;
               c4 = c3\<lparr>vel := newVel\<rparr>;
               c5 = c4\<lparr>worldPos := pos\<rparr>;
               c6 = c5\<lparr>heading := apply_matrix (xform c5) (create 0 1)\<rparr>
           in Inr (effs, c6)))"

text \<open>
  A sequence of update ticks, one controller reading per tick. The effect calls of
  all ticks are collected in order; an error ends the run.
\<close>

fun Craft_run ::
  "World \<Rightarrow> 'a Craft_scheme \<Rightarrow> Controller list \<Rightarrow> error + (effect list \<times> 'a Craft_scheme)" where
  "Craft_run w c [] = Inr ([], c)"
| "Craft_run w c (ctl # ctls) =
     (case Craft_update ctl w c of
        Inl e \<Rightarrow> Inl e
      | Inr (effs, c1) \<Rightarrow>
          (case Craft_run w c1 ctls of
             Inl e \<Rightarrow> Inl e
           | Inr (effs1, c2) \<Rightarrow> Inr (effs @ effs1, c2)))"

text \<open>
  The transitions of the thrust mode, counted on the sequence of modes alone: the
  mode before the first tick, then the mode each tick's button reading selects
  (\<open>True\<close> is THRUSTING, \<open>False\<close> is COASTING).
\<close>

fun rising_edges :: "bool \<Rightarrow> bool list \<Rightarrow> nat" where
  "rising_edges m [] = 0"
| "rising_edges m (b # bs) = (if \<not> m \<and> b then 1 else 0) + rising_edges b bs"

fun falling_edges :: "bool \<Rightarrow> bool list \<Rightarrow> nat" where
  "falling_edges m [] = 0"
| "falling_edges m (b # bs) = (if m \<and> \<not> b then 1 else 0) + falling_edges b bs"

text \<open>
  The effect calls that the changes of the thrust mode ask for, tick by tick: the
  start effect in a tick that goes from COASTING to THRUSTING, the stop effect in a
  tick that goes from THRUSTING to COASTING, nothing in a tick that keeps the mode.
\<close>

fun transition_effects :: "bool \<Rightarrow> bool list \<Rightarrow> effect list" where
  "transition_effects m [] = []"
| "transition_effects m (b # bs) =
     (if \<not> m \<and> b then [StartEffect] else if m \<and> \<not> b then [ClearParticles] else [])
       @ transition_effects b bs"

section \<open>The numbers of the program\<close>






















section \<open>Vector facts\<close>

lemma magSquared_nonneg: "0 \<le> magSquared v"
  by (simp add: magSquared_def)

lemma mag_nonneg: "0 \<le> mag v"
  by (simp add: mag_def magSquared_nonneg)

lemma mag_sq: "mag v * mag v = magSquared v"
  by (simp add: mag_def magSquared_nonneg)

lemma mag_eq_0_iff: "mag v = 0 \<longleftrightarrow> magSquared v = 0"
  by (simp add: mag_def)

lemma mag_pos_iff: "0 < mag v \<longleftrightarrow> 0 < magSquared v"
  by (simp add: mag_def)

lemma magSquared_scale: "magSquared (scale v k) = k * k * magSquared v"
  by (simp add: magSquared_def scale_def algebra_simps)

lemma normalize_vec_nonzero: "magSquared v \<noteq> 0 \<Longrightarrow> normalize_vec v = scale v (1 / mag v)"
  by (simp add: normalize_vec_def scale_def mag_eq_0_iff)

lemma magSquared_normalize_vec: 
  assumes "magSquared v \<noteq> 0" shows "magSquared (normalize_vec v) = 1"
proof -
  have m: "mag v \<noteq> 0" using assms by (simp add: mag_eq_0_iff)
  have "magSquared (normalize_vec v) = magSquared v / (mag v * mag v)"
    using assms by (simp add: normalize_vec_nonzero magSquared_scale)
  also have "\<dots> = 1" using assms by (simp add: mag_sq)
  finally show ?thesis .
qed

lemma maxAirSpeedSq_pos: "0 < maxAirSpeedSq"
  by (simp add: maxAirSpeedSq_def maxAirSpeed_def)

lemma capped_magSquared:
  assumes "magSquared v > maxAirSpeedSq"
  shows "magSquared (scale (normalize_vec v) maxAirSpeed) = maxAirSpeedSq"
proof -
  have "magSquared v \<noteq> 0" using assms maxAirSpeedSq_pos by linarith
  then show ?thesis
    by (simp add: magSquared_scale magSquared_normalize_vec maxAirSpeedSq_def)
qed

lemma sqrt_maxAirSpeedSq: "sqrt (maxAirSpeed * maxAirSpeed) = maxAirSpeed"
proof -
  have "sqrt (maxAirSpeed * maxAirSpeed) = \<bar>maxAirSpeed\<bar>" by (rule real_sqrt_abs2)
  also have "\<dots> = maxAirSpeed" by (simp add: maxAirSpeed_def)
  finally show ?thesis .
qed

lemma mag_le_maxAirSpeed: "magSquared v \<le> maxAirSpeedSq \<Longrightarrow> mag v \<le> maxAirSpeed"
proof -
  assume "magSquared v \<le> maxAirSpeedSq"
  then have "sqrt (magSquared v) \<le> sqrt (maxAirSpeed * maxAirSpeed)"
    unfolding maxAirSpeedSq_def by (rule real_sqrt_le_mono)
  also have "sqrt (maxAirSpeed * maxAirSpeed) = maxAirSpeed"
    by (rule sqrt_maxAirSpeedSq)
  finally show ?thesis by (simp add: mag_def)
qed

section \<open>The speed cap and the floor of calcVelocity\<close>

text \<open>
  In exact arithmetic the velocity that \<^verbatim>\<open>calcVelocity\<close> returns has squared
  magnitude at most \<^verbatim>\<open>maxAirSpeedSq\<close>: it is the smaller of \<^verbatim>\<open>maxAirSpeedSq\<close> and the
  squared magnitude of the velocity after the floor on Y.
\<close>

lemma calcVelocity_speed_cap_exact:
  "magSquared (calcVelocity w c) \<le> maxAirSpeedSq \<and>
   mag (calcVelocity w c) \<le> maxAirSpeed \<and>
   magSquared (calcVelocity w c) =
     min maxAirSpeedSq
       (magSquared
         (let newVel = add (vel c) (add (thrust c) (gravity w))
          in if getY newVel < maxDownSpeed then setY newVel maxDownSpeed else newVel))"
proof -
  have le: "magSquared (calcVelocity w c) \<le> maxAirSpeedSq"
    by (simp add: calcVelocity_def Let_def capped_magSquared)
  have eq: "magSquared (calcVelocity w c) =
     min maxAirSpeedSq
       (magSquared
         (let newVel = add (vel c) (add (thrust c) (gravity w))
          in if getY newVel < maxDownSpeed then setY newVel maxDownSpeed else newVel))"
    by (simp add: calcVelocity_def Let_def capped_magSquared min_def)
  show ?thesis using le eq by (simp add: mag_le_maxAirSpeed)
qed

lemma mag_gt_maxAirSpeed: 
  assumes "magSquared v > maxAirSpeedSq" shows "maxAirSpeed < mag v"
proof -
  have "sqrt (maxAirSpeed * maxAirSpeed) < sqrt (magSquared v)"
    using assms unfolding maxAirSpeedSq_def by (rule real_sqrt_less_mono)
  moreover have "sqrt (maxAirSpeed * maxAirSpeed) = maxAirSpeed"
    by (rule sqrt_maxAirSpeedSq)
  ultimately show ?thesis by (simp add: mag_def)
qed

lemma capped_getY:
  assumes big: "magSquared v > maxAirSpeedSq" and fl: "maxDownSpeed \<le> getY v"
  shows "maxDownSpeed \<le> getY (scale (normalize_vec v) maxAirSpeed)"
proof -
  have m: "maxAirSpeed < mag v" using big by (rule mag_gt_maxAirSpeed)
  have mp: "0 < mag v" using m by (simp add: maxAirSpeed_def)
  have r: "0 < maxAirSpeed / mag v" "maxAirSpeed / mag v < 1"
    using m mp by (simp_all add: maxAirSpeed_def)
  have eq: "getY (scale (normalize_vec v) maxAirSpeed) = getY v * (maxAirSpeed / mag v)"
    using mp by (simp add: normalize_vec_def scale_def)
  show ?thesis
  proof (cases "0 \<le> getY v")
    case True
    then have "0 \<le> getY v * (maxAirSpeed / mag v)"
      using r by (intro mult_nonneg_nonneg) simp_all
    then show ?thesis using eq by (simp add: maxDownSpeed_def)
  next
    case False
    then have "getY v < 0" by simp
    then have "getY v * 1 \<le> getY v * (maxAirSpeed / mag v)"
      using r by (intro mult_left_mono_neg) simp_all
    then show ?thesis using eq fl by simp
  qed
qed

text \<open>
  C2. Whatever the velocity and thrust of the craft and the gravity of the world, the
  Y component of the velocity that \<^verbatim>\<open>calcVelocity\<close> returns is at least
  \<^verbatim>\<open>maxDownSpeed\<close>, also when the floor on Y is followed by the uniform
  normalize-and-rescale, which only shrinks the vector.
\<close>

theorem calcVelocity_down_floor: "maxDownSpeed \<le> getY (calcVelocity w c)"
  by (simp add: calcVelocity_def Let_def capped_getY setY_def)

section \<open>The bounce impulse\<close>

lemma bounceOffSides_alt:
  "bounceOffSides pos v =
     scale (normalize_vec
       (Vector (if 76 < getX (add pos v) then - maxAirSpeed
                else if getX (add pos v) < - 76 then maxAirSpeed else 0)
               (if 56 < getY (add pos v) then - maxAirSpeed
                else if getY (add pos v) < - 56 then maxAirSpeed else 0))) maxAirSpeed"
  by (simp add: bounceOffSides_def Let_def setX_def setY_def zero_def)

lemma magSquared_pos_X: "getX u \<noteq> 0 \<Longrightarrow> 0 < magSquared u"
proof -
  assume "getX u \<noteq> 0"
  then have "0 < (getX u)\<^sup>2" by simp
  then have "0 < getX u * getX u" by (simp only: power2_eq_square)
  moreover have "0 \<le> getY u * getY u" by simp
  ultimately show ?thesis by (simp add: magSquared_def add_pos_nonneg)
qed

lemma magSquared_pos_Y: "getY u \<noteq> 0 \<Longrightarrow> 0 < magSquared u"
proof -
  assume "getY u \<noteq> 0"
  then have "0 < (getY u)\<^sup>2" by simp
  then have "0 < getY u * getY u" by (simp only: power2_eq_square)
  moreover have "0 \<le> getX u * getX u" by simp
  ultimately show ?thesis by (simp add: magSquared_def add_nonneg_pos)
qed

lemma rescaled_X_neg:
  assumes "getX u < 0" shows "getX (scale (normalize_vec u) maxAirSpeed) < 0"
proof -
  have "0 < mag u" using assms magSquared_pos_X [of u] by (simp add: mag_pos_iff)
  then have "getX u / mag u < 0" using assms by (simp add: divide_neg_pos)
  then have "getX u / mag u * maxAirSpeed < 0"
    by (simp add: maxAirSpeed_def)
  then show ?thesis using \<open>0 < mag u\<close> by (simp add: normalize_vec_def scale_def)
qed

lemma rescaled_X_pos:
  assumes "0 < getX u" shows "0 < getX (scale (normalize_vec u) maxAirSpeed)"
proof -
  have "0 < mag u" using assms magSquared_pos_X [of u] by (simp add: mag_pos_iff)
  then have "0 < getX u / mag u" using assms by simp
  then have "0 < getX u / mag u * maxAirSpeed"
    by (simp add: maxAirSpeed_def)
  then show ?thesis using \<open>0 < mag u\<close> by (simp add: normalize_vec_def scale_def)
qed

lemma rescaled_Y_neg:
  assumes "getY u < 0" shows "getY (scale (normalize_vec u) maxAirSpeed) < 0"
proof -
  have "0 < mag u" using assms magSquared_pos_Y [of u] by (simp add: mag_pos_iff)
  then have "getY u / mag u < 0" using assms by (simp add: divide_neg_pos)
  then have "getY u / mag u * maxAirSpeed < 0"
    by (simp add: maxAirSpeed_def)
  then show ?thesis using \<open>0 < mag u\<close> by (simp add: normalize_vec_def scale_def)
qed

lemma rescaled_Y_pos:
  assumes "0 < getY u" shows "0 < getY (scale (normalize_vec u) maxAirSpeed)"
proof -
  have "0 < mag u" using assms magSquared_pos_Y [of u] by (simp add: mag_pos_iff)
  then have "0 < getY u / mag u" using assms by simp
  then have "0 < getY u / mag u * maxAirSpeed"
    by (simp add: maxAirSpeed_def)
  then show ?thesis using \<open>0 < mag u\<close> by (simp add: normalize_vec_def scale_def)
qed

lemma rescaled_zero: "scale (normalize_vec zero) maxAirSpeed = zero"
  by (simp add: normalize_vec_def scale_def zero_def mag_def magSquared_def)

lemma magSquared_zero_iff: "magSquared u = 0 \<longleftrightarrow> u = zero"
proof
  assume "magSquared u = 0"
  then have "getX u = 0 \<and> getY u = 0"
    using magSquared_pos_X [of u] magSquared_pos_Y [of u] by auto
  then show "u = zero" by (cases u) (simp add: zero_def)
next
  assume "u = zero"
  then show "magSquared u = 0" by (simp add: zero_def magSquared_def)
qed

lemma rescaled_mag:
  assumes "scale (normalize_vec u) maxAirSpeed \<noteq> zero"
  shows "mag (scale (normalize_vec u) maxAirSpeed) = maxAirSpeed"
proof -
  have "u \<noteq> zero" using assms rescaled_zero by auto
  then have "magSquared u \<noteq> 0" by (simp add: magSquared_zero_iff)
  then have "magSquared (scale (normalize_vec u) maxAirSpeed) = maxAirSpeed * maxAirSpeed"
    by (simp add: magSquared_scale magSquared_normalize_vec)
  then have "mag (scale (normalize_vec u) maxAirSpeed) = sqrt (maxAirSpeed * maxAirSpeed)"
    by (simp only: mag_def)
  then show ?thesis by (simp only: sqrt_maxAirSpeedSq)
qed

text \<open>
  C4. For every position and velocity, with the predicted position \<open>pos + vel\<close>:
  beyond +76 in X the impulse of \<^verbatim>\<open>bounceOffSides\<close> has a negative X component,
  beyond -76 a positive one, and likewise in Y beyond +56 and -56; when no bound is
  exceeded the impulse is exactly the zero vector (normalizing the zero vector gives
  the zero vector); and an impulse that is not zero has magnitude \<^verbatim>\<open>maxAirSpeed\<close>.
\<close>

theorem bounceOffSides_impulse:
  "(76 < getX (add pos v) \<longrightarrow> getX (bounceOffSides pos v) < 0) \<and>
   (getX (add pos v) < - 76 \<longrightarrow> 0 < getX (bounceOffSides pos v)) \<and>
   (56 < getY (add pos v) \<longrightarrow> getY (bounceOffSides pos v) < 0) \<and>
   (getY (add pos v) < - 56 \<longrightarrow> 0 < getY (bounceOffSides pos v)) \<and>
   (- 76 \<le> getX (add pos v) \<and> getX (add pos v) \<le> 76 \<and>
    - 56 \<le> getY (add pos v) \<and> getY (add pos v) \<le> 56 \<longrightarrow> bounceOffSides pos v = zero) \<and>
   (bounceOffSides pos v \<noteq> zero \<longrightarrow> mag (bounceOffSides pos v) = maxAirSpeed)"
proof (intro conjI impI)
  assume "76 < getX (add pos v)"
  then show "getX (bounceOffSides pos v) < 0"
    unfolding bounceOffSides_alt by (intro rescaled_X_neg) (simp add: maxAirSpeed_def)
next
  assume "getX (add pos v) < - 76"
  then show "0 < getX (bounceOffSides pos v)"
    unfolding bounceOffSides_alt by (intro rescaled_X_pos) (simp add: maxAirSpeed_def)
next
  assume "56 < getY (add pos v)"
  then show "getY (bounceOffSides pos v) < 0"
    unfolding bounceOffSides_alt by (intro rescaled_Y_neg) (simp add: maxAirSpeed_def)
next
  assume "getY (add pos v) < - 56"
  then show "0 < getY (bounceOffSides pos v)"
    unfolding bounceOffSides_alt by (intro rescaled_Y_pos) (simp add: maxAirSpeed_def)
next
  assume "- 76 \<le> getX (add pos v) \<and> getX (add pos v) \<le> 76 \<and>
    - 56 \<le> getY (add pos v) \<and> getY (add pos v) \<le> 56"
  then show "bounceOffSides pos v = zero"
    unfolding bounceOffSides_alt using rescaled_zero by (simp add: zero_def)
next
  assume "bounceOffSides pos v \<noteq> zero"
  then show "mag (bounceOffSides pos v) = maxAirSpeed"
    unfolding bounceOffSides_alt by (rule rescaled_mag)
qed

theorem bounceOffSides_impulse_witness:
  "76 < getX (add (Vector 79 0) (Vector 1 0)) \<and>
   getX (bounceOffSides (Vector 79 0) (Vector 1 0)) < 0 \<and>
   bounceOffSides (Vector 79 0) (Vector 1 0) \<noteq> zero \<and>
   mag (bounceOffSides (Vector 79 0) (Vector 1 0)) = maxAirSpeed \<and>
   getX (add (Vector (- 80) 60) (Vector 0 0)) < - 76 \<and>
   0 < getX (bounceOffSides (Vector (- 80) 60) (Vector 0 0)) \<and>
   56 < getY (add (Vector (- 80) 60) (Vector 0 0)) \<and>
   getY (bounceOffSides (Vector (- 80) 60) (Vector 0 0)) < 0 \<and>
   getY (add (Vector 0 (- 57)) (Vector 0 0)) < - 56 \<and>
   0 < getY (bounceOffSides (Vector 0 (- 57)) (Vector 0 0)) \<and>
   bounceOffSides (Vector 76 (- 56)) (Vector 0 0) = zero"
proof -
  have a: "76 < getX (add (Vector 79 0) (Vector 1 0))" by (simp add: add_def)
  have b: "getX (add (Vector (- 80) 60) (Vector 0 0)) < - 76" by (simp add: add_def)
  have c: "56 < getY (add (Vector (- 80) 60) (Vector 0 0))" by (simp add: add_def)
  have d: "getY (add (Vector 0 (- 57)) (Vector 0 0)) < - 56" by (simp add: add_def)
  have e: "- 76 \<le> getX (add (Vector 76 (- 56)) (Vector 0 0)) \<and>
           getX (add (Vector 76 (- 56)) (Vector 0 0)) \<le> 76 \<and>
           - 56 \<le> getY (add (Vector 76 (- 56)) (Vector 0 0)) \<and>
           getY (add (Vector 76 (- 56)) (Vector 0 0)) \<le> 56" by (simp add: add_def)
  have x: "getX (bounceOffSides (Vector 79 0) (Vector 1 0)) < 0"
    using bounceOffSides_impulse [of "Vector 79 0" "Vector 1 0"] a by (elim conjE) (erule (1) mp)
  then have nz: "bounceOffSides (Vector 79 0) (Vector 1 0) \<noteq> zero"
    by (auto simp: zero_def)
  note t1 = bounceOffSides_impulse [of "Vector 79 0" "Vector 1 0"]
  have m: "mag (bounceOffSides (Vector 79 0) (Vector 1 0)) = maxAirSpeed"
    using t1 nz by (elim conjE) (erule (1) mp)
  note t2 = bounceOffSides_impulse [of "Vector (- 80) 60" "Vector 0 0"]
  have p: "0 < getX (bounceOffSides (Vector (- 80) 60) (Vector 0 0))"
    using t2 b by (elim conjE) (erule (1) mp)
  have q: "getY (bounceOffSides (Vector (- 80) 60) (Vector 0 0)) < 0"
    using t2 c by (elim conjE) (erule (1) mp)
  note t3 = bounceOffSides_impulse [of "Vector 0 (- 57)" "Vector 0 0"]
  have r: "0 < getY (bounceOffSides (Vector 0 (- 57)) (Vector 0 0))"
    using t3 d by (elim conjE) (erule (1) mp)
  note t4 = bounceOffSides_impulse [of "Vector 76 (- 56)" "Vector 0 0"]
  have z: "bounceOffSides (Vector 76 (- 56)) (Vector 0 0) = zero"
    by (rule mp [OF conjunct1 [OF conjunct2 [OF conjunct2 [OF conjunct2 [OF conjunct2 [OF t4]]]]] e])
  show ?thesis
    by (intro conjI a x nz m b p c q d r z)
qed

section \<open>Adding and removing shapes\<close>

lemma insertAt_end: "insertAt xs (int (length xs)) v = xs @ [v]"
  by (simp add: insertAt_def)

lemma removeAt_last: "removeAt (xs @ [v]) (int (length xs)) = xs"
  by (simp add: removeAt_def)

lemma World_add_shapes: "shapes (fst (World_add (w, h) s)) = shapes w @ [s]"
  by (simp add: World_add_def Let_def insertAt_end)

lemma World_add_sceneIndex:
  "sceneIndex (snd (World_add (w, h) s) s) = int (length (shapes w))"
  by (simp add: World_add_def Let_def)

lemma World_add_other: "r \<noteq> s \<Longrightarrow> snd (World_add (w, h) s) r = h r"
  by (simp add: World_add_def Let_def)

lemma World_remove_other: "r \<noteq> s \<Longrightarrow> snd (World_remove (w, h) s) r = h r"
  by (simp add: World_remove_def Let_def)

text \<open>
  C6. For every world and store and every shape \<open>s\<close> that is not in the world's
  collection, \<^verbatim>\<open>add(s)\<close> followed at once by \<^verbatim>\<open>remove(s)\<close> gives back the world
  as it was, the same shapes in the same order, and leaves every shape of the
  collection as it was, its \<^verbatim>\<open>sceneIndex\<close> included.
\<close>

theorem World_add_remove:
  assumes "s \<notin> set (shapes w)"
  shows "fst (World_remove (World_add (w, h) s) s) = w \<and>
         shapes (fst (World_remove (World_add (w, h) s) s)) = shapes w \<and>
         (\<forall>r \<in> set (shapes w).
            sceneIndex (snd (World_remove (World_add (w, h) s) s) r) = sceneIndex (h r))"
proof -
  have w: "fst (World_remove (World_add (w, h) s) s) = w"
    by (simp add: World_add_def World_remove_def Let_def insertAt_end removeAt_last)
  have "snd (World_remove (World_add (w, h) s) s) r = h r" if "r \<in> set (shapes w)" for r
  proof -
    have "r \<noteq> s" using that assms by auto
    then show ?thesis
      by (simp add: World_add_def World_remove_def Let_def)
  qed
  then show ?thesis using w by simp
qed

theorem World_add_remove_witness:
  "2 \<notin> set (shapes (fst two_shapes)) \<and>
   fst (World_remove (World_add two_shapes 2) 2) = fst two_shapes \<and>
   shapes (fst (World_remove (World_add two_shapes 2) 2)) = [0, 1] \<and>
   sceneIndex (snd (World_remove (World_add two_shapes 2) 2) 0) = 0 \<and>
   sceneIndex (snd (World_remove (World_add two_shapes 2) 2) 1) = 1"
proof -
  have sh: "shapes (fst two_shapes) = [0, 1]"
    by (simp add: two_shapes_def World_add_def Let_def insertAt_def World_new_def)
  have i0: "sceneIndex (snd two_shapes 0) = 0" and i1: "sceneIndex (snd two_shapes 1) = 1"
    by (simp_all add: two_shapes_def World_add_def Let_def insertAt_def World_new_def)
  have n: "2 \<notin> set (shapes (fst two_shapes))" by (simp add: sh)
  note t = World_add_remove [OF n, of "snd two_shapes"]
  show ?thesis using t n sh i0 i1 by simp
qed

text \<open>
  C5. After \<^verbatim>\<open>remove\<close> the \<^verbatim>\<open>sceneIndex\<close> of every remaining shape should be its
  position in the collection. In a world to which shapes 0 and 1 were added in this
  order, removing shape 0 leaves shape 1 alone in the collection, at position 0, with
  \<^verbatim>\<open>sceneIndex\<close> 1: nothing was renumbered. Removing shape 1 after that removes
  nothing, although shape 1 is marked as removed.
\<close>

theorem World_remove_no_renumbering:
  "shapes (fst two_shapes) = [0, 1] \<and>
   sceneIndex (snd two_shapes 0) = 0 \<and>
   sceneIndex (snd two_shapes 1) = 1 \<and>
   shapes (fst (World_remove two_shapes 0)) = [1] \<and>
   sceneIndex (snd (World_remove two_shapes 0) 0) = - 1 \<and>
   sceneIndex (snd (World_remove two_shapes 0) 1) = 1 \<and>
   shapes (fst (World_remove (World_remove two_shapes 0) 1)) = [1] \<and>
   sceneIndex (snd (World_remove (World_remove two_shapes 0) 1) 1) = - 1"
  by (simp add: two_shapes_def World_add_def World_remove_def Let_def insertAt_def removeAt_def
      World_new_def)

section \<open>What an update changes\<close>

lemma Shape_update_step_fields:
  "Shape_update_step w i s = Inr s' \<Longrightarrow> s' = s\<lparr>renderPoints := renderPoints s'\<rparr>"
  by (auto simp: Shape_update_step_def Let_def split: option.splits)

lemma Shape_update_from_fields:
  "Shape_update_from w i s = Inr s' \<Longrightarrow> s' = s\<lparr>renderPoints := renderPoints s'\<rparr>"
proof (induction w i s rule: Shape_update_from.induct)
  case (1 w i s)
  show ?case
  proof (cases "i < 4")
    case False
    then show ?thesis using "1.prems" by simp
  next
    case True
    then obtain s1 where s1: "Shape_update_step w i s = Inr s1"
      and rest: "Shape_update_from w (Suc i) s1 = Inr s'"
      using "1.prems" by (auto split: sum.splits)
    have a: "s1 = s\<lparr>renderPoints := renderPoints s1\<rparr>"
      using s1 by (rule Shape_update_step_fields)
    have b: "s' = s1\<lparr>renderPoints := renderPoints s'\<rparr>"
      using "1.IH" [OF True s1 rest] .
    show ?thesis by (subst b, subst a) simp
  qed
qed

lemma Shape_update_fields:
  "Shape_update w s = Inr s' \<Longrightarrow> s' = s\<lparr>renderPoints := renderPoints s'\<rparr>"
  unfolding Shape_update_def by (rule Shape_update_from_fields)

lemma Shape_update_step_total:
  assumes "points s = Some ps" and "array_get ps (int i) \<noteq> None"
  shows "\<exists>s'. Shape_update_step w i s = Inr s'"
  using assms by (auto simp: Shape_update_step_def Let_def)

lemma Shape_update_from_total:
  assumes "points s = Some ps" and "\<forall>i<4. array_get ps (int i) \<noteq> None"
  shows "\<exists>s'. Shape_update_from w i s = Inr s'"
  using assms
proof (induction w i s rule: Shape_update_from.induct)
  case (1 w i s)
  show ?case
  proof (cases "i < 4")
    case False
    then show ?thesis by simp
  next
    case True
    then have "array_get ps (int i) \<noteq> None" using "1.prems" by blast
    then obtain s1 where s1: "Shape_update_step w i s = Inr s1"
      using Shape_update_step_total [OF "1.prems"(1)] by blast
    then have "s1 = s\<lparr>renderPoints := renderPoints s1\<rparr>"
      by (rule Shape_update_step_fields)
    then have "points s1 = points s" by (metis Shape.select_convs(1) Shape.surjective Shape.update_convs(2))
    then have p1: "points s1 = Some ps" using "1.prems" by simp
    obtain s' where "Shape_update_from w (Suc i) s1 = Inr s'"
      using "1.IH" [OF True s1 p1 "1.prems"(2)] by blast
    then show ?thesis using True s1 by simp
  qed
qed

lemma Shape_update_total:
  assumes "points s = Some ps" and "\<forall>i<4. array_get ps (int i) \<noteq> None"
  shows "\<exists>s'. Shape_update w s = Inr s'"
  unfolding Shape_update_def using assms by (rule Shape_update_from_total)

section \<open>The update of the craft\<close>

lemma Craft_update_total:
  assumes "points c = Some ps" and "\<forall>i<4. array_get ps (int i) \<noteq> None"
  shows "\<exists>effs c'. Craft_update ctl w c = Inr (effs, c')"
proof -
  obtain c1 where "Shape_update w c = Inr c1"
    using Shape_update_total [OF assms] by blast
  then show ?thesis
    by (simp add: Craft_update_def Let_def split_def)
qed

lemma Craft_new_points:
  "points Craft_new =
     Some [Some (create 0 8), Some (create 4 0), Some (create 0 (- 2)), Some (create (- 4) 0)]"
  by (simp add: Craft_new_def)

lemma four_points_defined:
  "\<forall>i<4. array_get [Some a, Some b, Some c, Some d] (int i) \<noteq> None"
proof (intro allI impI)
  fix i :: nat
  assume "i < 4"
  then have "i = 0 \<or> i = 1 \<or> i = 2 \<or> i = 3" by arith
  then show "array_get [Some a, Some b, Some c, Some d] (int i) \<noteq> None"
    by (auto simp: array_get_def)
qed

lemma Craft_update_new_total:
  "\<exists>effs c'. Craft_update ctl w Craft_new = Inr (effs, c')"
  by (rule Craft_update_total [OF Craft_new_points four_points_defined])

text \<open>
  C7. After every \<^verbatim>\<open>Craft.update\<close> that completes, the \<^verbatim>\<open>heading\<close> of the craft is
  its transform \<^verbatim>\<open>xform\<close>, as the update left it, applied to the forward vector
  \<open>(0, 1)\<close>.
\<close>

theorem Craft_update_heading:
  assumes "Craft_update ctl w c = Inr (effs, c')"
  shows "heading c' = apply_matrix (xform c') (create 0 1)"
  using assms
  by (auto simp: Craft_update_def Let_def updateEffects_def split: sum.splits)

theorem Craft_update_heading_witness:
  "\<exists>effs c'.
     Craft_update \<lparr>A_isPressed = True, left_isPressed = True, right_isPressed = False\<rparr>
       World_new Craft_new = Inr (effs, c') \<and>
     heading c' = apply_matrix (xform c') (create 0 1)"
proof -
  obtain effs c' where
    u: "Craft_update \<lparr>A_isPressed = True, left_isPressed = True, right_isPressed = False\<rparr>
          World_new Craft_new = Inr (effs, c')"
    using Craft_update_new_total by blast
  show ?thesis using u Craft_update_heading [OF u] by blast
qed

section \<open>One tick of thrust\<close>

lemma handleInput_thrust_pressed:
  "A_isPressed ctl \<Longrightarrow> thrust (handleInput ctl c) = scale (heading c) 0.08"
  by (simp add: handleInput_def applyThrust_def Let_def)

lemma handleInput_vel: "vel (handleInput ctl c) = vel c"
  by (simp add: handleInput_def applyThrust_def releaseThrust_def Let_def)

lemma handleInput_worldPos: "worldPos (handleInput ctl c) = worldPos c"
  by (simp add: handleInput_def applyThrust_def releaseThrust_def Let_def)

lemma calcVelocity_renderPoints:
  "calcVelocity w (c\<lparr>renderPoints := rp\<rparr>) = calcVelocity w c"
  by (simp add: calcVelocity_def)

lemma handleInput_renderPoints:
  "handleInput ctl (c\<lparr>renderPoints := rp\<rparr>) = (handleInput ctl c)\<lparr>renderPoints := rp\<rparr>"
  by (simp add: handleInput_def applyThrust_def releaseThrust_def Let_def)

lemma Craft_update_vel_worldPos:
  assumes "Craft_update ctl w c = Inr (effs, c')"
  shows "vel c' = add (calcVelocity w (handleInput ctl c))
                    (bounceOffSides (worldPos c) (calcVelocity w (handleInput ctl c)))"
    and "worldPos c' = add (worldPos c) (vel c')"
proof -
  obtain c1 where c1: "Shape_update w c = Inr c1"
    using assms by (auto simp: Craft_update_def split: sum.splits)
  have eq: "c1 = c\<lparr>renderPoints := renderPoints c1\<rparr>"
    using c1 by (rule Shape_update_fields)
  have h: "handleInput ctl c1 = (handleInput ctl c)\<lparr>renderPoints := renderPoints c1\<rparr>"
    by (subst eq) (simp add: handleInput_renderPoints)
  have cv: "calcVelocity w (handleInput ctl c1) = calcVelocity w (handleInput ctl c)"
    by (simp add: h calcVelocity_renderPoints)
  have wp: "worldPos (handleInput ctl c1) = worldPos c"
    by (simp add: h handleInput_worldPos)
  show "vel c' = add (calcVelocity w (handleInput ctl c))
                    (bounceOffSides (worldPos c) (calcVelocity w (handleInput ctl c)))"
    using assms c1 cv wp by (auto simp: Craft_update_def Let_def updateEffects_def)
  then show "worldPos c' = add (worldPos c) (vel c')"
    using assms c1 cv wp by (auto simp: Craft_update_def Let_def updateEffects_def)
qed

text \<open>
  C9. A craft at position \<open>(0, 0)\<close> with heading \<open>(0, 1)\<close> and velocity \<open>(0, 0)\<close>, in a
  world of gravity \<open>(0, -0.02)\<close>, is updated once with the thrust button held. The
  thrust is the heading scaled by 0.08; velocity plus thrust plus gravity is
  \<open>(0, 0.06)\<close>; \<^verbatim>\<open>calcVelocity\<close> returns it unchanged, so neither clamp fires; the
  bounce impulse is the zero vector; and the update commits velocity \<open>(0, 0.06)\<close> and
  position \<open>(0, 0.06)\<close>.
\<close>

theorem thrust_one_tick:
  assumes "worldPos c = Vector 0 0" and "heading c = Vector 0 1" and "vel c = Vector 0 0"
    and "gravity w = Vector 0 (- 0.02)" and "A_isPressed ctl"
    and "Craft_update ctl w c = Inr (effs, c')"
  shows "thrust (handleInput ctl c) = Vector 0 0.08 \<and>
         add (vel (handleInput ctl c)) (add (thrust (handleInput ctl c)) (gravity w)) =
           Vector 0 0.06 \<and>
         calcVelocity w (handleInput ctl c) = Vector 0 0.06 \<and>
         bounceOffSides (worldPos c) (calcVelocity w (handleInput ctl c)) = zero \<and>
         vel c' = Vector 0 0.06 \<and>
         worldPos c' = Vector 0 0.06"
proof -
  have t: "thrust (handleInput ctl c) = Vector 0 0.08"
    using assms(2,5) by (simp add: handleInput_thrust_pressed scale_def)
  have s: "add (vel (handleInput ctl c)) (add (thrust (handleInput ctl c)) (gravity w)) =
           Vector 0 0.06"
    using assms(3,4) by (simp add: t handleInput_vel add_def)
  have cv: "calcVelocity w (handleInput ctl c) = Vector 0 0.06"
    using s by (simp add: calcVelocity_def Let_def maxDownSpeed_def maxAirSpeedSq_def
        maxAirSpeed_def magSquared_def)
  have b: "bounceOffSides (worldPos c) (Vector 0 0.06) = zero"
    using assms(1)
    by (simp add: bounceOffSides_def Let_def add_def zero_def normalize_vec_def mag_def
        magSquared_def scale_def)
  have "vel c' = add (Vector 0 0.06) zero"
    using Craft_update_vel_worldPos(1) [OF assms(6)] by (simp only: cv b)
  then have v: "vel c' = Vector 0 0.06"
    by (simp add: add_def zero_def)
  have p: "worldPos c' = Vector 0 0.06"
    using Craft_update_vel_worldPos(2) [OF assms(6)] assms(1) by (simp add: v add_def)
  have b': "bounceOffSides (worldPos c) (calcVelocity w (handleInput ctl c)) = zero"
    by (simp only: cv b)
  show ?thesis by (intro conjI t s cv b' v p)
qed

theorem thrust_one_tick_witness:
  "\<exists>effs c'.
     worldPos Craft_new = Vector 0 0 \<and> heading Craft_new = Vector 0 1 \<and>
     vel Craft_new = Vector 0 0 \<and> gravity World_new = Vector 0 (- 0.02) \<and>
     Craft_update \<lparr>A_isPressed = True, left_isPressed = False, right_isPressed = False\<rparr>
       World_new Craft_new = Inr (effs, c') \<and>
     vel c' = Vector 0 0.06 \<and> worldPos c' = Vector 0 0.06"
proof -
  obtain effs c' where
    u: "Craft_update \<lparr>A_isPressed = True, left_isPressed = False, right_isPressed = False\<rparr>
          World_new Craft_new = Inr (effs, c')"
    using Craft_update_new_total by blast
  have a: "worldPos Craft_new = Vector 0 0" "heading Craft_new = Vector 0 1"
    "vel Craft_new = Vector 0 0"
    by (simp_all add: Craft_new_def Shape_new_def zero_def create_def)
  have g: "gravity World_new = Vector 0 (- 0.02)"
    by (simp add: World_new_def create_def)
  have k: "A_isPressed \<lparr>A_isPressed = True, left_isPressed = False, right_isPressed = False\<rparr>"
    by simp
  note t = thrust_one_tick [OF a g k u]
  show ?thesis using a g u t by blast
qed

section \<open>The thrust effects\<close>

lemma handleInput_flags:
  assumes "\<not> beganThrusting c" and "\<not> stoppedThrusting c"
  shows "beganThrusting (handleInput ctl c) = (\<not> thrusting c \<and> A_isPressed ctl)"
    and "stoppedThrusting (handleInput ctl c) = (thrusting c \<and> \<not> A_isPressed ctl)"
    and "thrusting (handleInput ctl c) = A_isPressed ctl"
  using assms by (auto simp: handleInput_def applyThrust_def releaseThrust_def Let_def)

lemma Craft_update_effects:
  assumes "\<not> beganThrusting c" and "\<not> stoppedThrusting c"
    and "Craft_update ctl w c = Inr (effs, c')"
  shows "effs = (if \<not> thrusting c \<and> A_isPressed ctl then [StartEffect]
                 else if thrusting c \<and> \<not> A_isPressed ctl then [ClearParticles]
                 else [])"
    and "thrusting c' = A_isPressed ctl"
    and "\<not> beganThrusting c'" and "\<not> stoppedThrusting c'"
proof -
  obtain c1 where c1: "Shape_update w c = Inr c1"
    using assms(3) by (auto simp: Craft_update_def split: sum.splits)
  have eq: "c1 = c\<lparr>renderPoints := renderPoints c1\<rparr>"
    using c1 by (rule Shape_update_fields)
  have f: "beganThrusting c1 = beganThrusting c" "stoppedThrusting c1 = stoppedThrusting c"
    "thrusting c1 = thrusting c"
    by (subst eq, simp)+
  have g: "\<not> beganThrusting c1" "\<not> stoppedThrusting c1"
    using assms(1,2) f by simp_all
  note h = handleInput_flags [OF g, of ctl]
  have e: "effs = fst (updateEffects (handleInput ctl c1))"
    and c': "thrusting c' = thrusting (handleInput ctl c1)"
    and b': "\<not> beganThrusting c'" and s': "\<not> stoppedThrusting c'"
    using assms(3) c1
    by (auto simp: Craft_update_def Let_def split_def updateEffects_def)
  show "effs = (if \<not> thrusting c \<and> A_isPressed ctl then [StartEffect]
                 else if thrusting c \<and> \<not> A_isPressed ctl then [ClearParticles]
                 else [])"
    using e h f by (auto simp: updateEffects_def)
  show "thrusting c' = A_isPressed ctl" using c' h by simp
  show "\<not> beganThrusting c'" by (rule b')
  show "\<not> stoppedThrusting c'" by (rule s')
qed

lemma Craft_update_points:
  assumes "Craft_update ctl w c = Inr (effs, c')"
  shows "points c' = points c"
proof -
  obtain c1 where c1: "Shape_update w c = Inr c1"
    using assms by (auto simp: Craft_update_def split: sum.splits)
  have eq: "c1 = c\<lparr>renderPoints := renderPoints c1\<rparr>"
    using c1 by (rule Shape_update_fields)
  have p: "points c1 = points c" by (subst eq) simp
  have "points c' = points c1"
    using assms c1
    by (auto simp: Craft_update_def Let_def split_def updateEffects_def handleInput_def
        applyThrust_def releaseThrust_def)
  then show ?thesis using p by simp
qed

lemma Craft_run_total:
  assumes "points c = Some ps" and "\<forall>i<4. array_get ps (int i) \<noteq> None"
  shows "\<exists>effs c'. Craft_run w c ctls = Inr (effs, c')"
  using assms
proof (induction ctls arbitrary: c)
  case Nil
  show ?case by simp
next
  case (Cons ctl ctls)
  obtain effs c1 where u: "Craft_update ctl w c = Inr (effs, c1)"
    using Craft_update_total [OF Cons.prems] by blast
  have "points c1 = Some ps"
    using Craft_update_points [OF u] Cons.prems(1) by simp
  then obtain effs1 c2 where "Craft_run w c1 ctls = Inr (effs1, c2)"
    using Cons.IH Cons.prems(2) by blast
  then show ?case using u by simp
qed

text \<open>
  C8. Take any craft whose two edge flags are clear, as they are after the
  constructor and after every update, and any sequence of update ticks with any
  button readings. In the effect calls of the whole run the start-thrust effect occurs
  once for each change of the thrust mode from COASTING to THRUSTING, and the
  stop-thrust effect once for each change from THRUSTING to COASTING, the changes
  counted on the sequence of modes, however long a mode lasts; each call is made in
  the tick of its change and no other call is made.
\<close>

theorem thrust_effects_once_per_transition:
  assumes "\<not> beganThrusting c" and "\<not> stoppedThrusting c"
    and "Craft_run w c ctls = Inr (effs, c')"
  shows "effs = transition_effects (thrusting c) (map A_isPressed ctls) \<and>
         count_list effs StartEffect = rising_edges (thrusting c) (map A_isPressed ctls) \<and>
         count_list effs ClearParticles = falling_edges (thrusting c) (map A_isPressed ctls)"
  using assms
proof (induction ctls arbitrary: c effs)
  case Nil
  then show ?case by simp
next
  case (Cons ctl ctls)
  obtain e1 c1 e2 where u: "Craft_update ctl w c = Inr (e1, c1)"
    and r: "Craft_run w c1 ctls = Inr (e2, c')" and effs: "effs = e1 @ e2"
    using Cons.prems(3) by (auto split: sum.splits)
  note t = Craft_update_effects [OF Cons.prems(1,2) u]
  note ih = Cons.IH [OF t(3,4) r]
  show ?case using ih t(1,2) effs by auto
qed

theorem thrust_effects_once_per_transition_witness:
  "\<exists>effs c'.
     \<not> beganThrusting Craft_new \<and> \<not> stoppedThrusting Craft_new \<and>
     Craft_run World_new Craft_new
       [\<lparr>A_isPressed = True, left_isPressed = False, right_isPressed = False\<rparr>,
        \<lparr>A_isPressed = True, left_isPressed = True, right_isPressed = False\<rparr>,
        \<lparr>A_isPressed = True, left_isPressed = False, right_isPressed = False\<rparr>,
        \<lparr>A_isPressed = False, left_isPressed = False, right_isPressed = True\<rparr>,
        \<lparr>A_isPressed = False, left_isPressed = False, right_isPressed = False\<rparr>,
        \<lparr>A_isPressed = True, left_isPressed = False, right_isPressed = False\<rparr>] = Inr (effs, c') \<and>
     count_list effs StartEffect = 2 \<and> count_list effs ClearParticles = 1"
proof -
  let ?ctls = "[\<lparr>A_isPressed = True, left_isPressed = False, right_isPressed = False\<rparr>,
        \<lparr>A_isPressed = True, left_isPressed = True, right_isPressed = False\<rparr>,
        \<lparr>A_isPressed = True, left_isPressed = False, right_isPressed = False\<rparr>,
        \<lparr>A_isPressed = False, left_isPressed = False, right_isPressed = True\<rparr>,
        \<lparr>A_isPressed = False, left_isPressed = False, right_isPressed = False\<rparr>,
        \<lparr>A_isPressed = True, left_isPressed = False, right_isPressed = False\<rparr>]"
  obtain effs c' where r: "Craft_run World_new Craft_new ?ctls = Inr (effs, c')"
    using Craft_run_total [OF Craft_new_points four_points_defined] by blast
  have f: "\<not> beganThrusting Craft_new" "\<not> stoppedThrusting Craft_new"
    by (simp_all add: Craft_new_def)
  have m: "thrusting Craft_new = False" by (simp add: Craft_new_def)
  note t = thrust_effects_once_per_transition [OF f r]
  have "count_list effs StartEffect = 2" "count_list effs ClearParticles = 1"
    using t by (simp_all add: m)
  then show ?thesis using f r by blast
qed

section \<open>The render points\<close>

lemma toScreen_new: "toScreen World_new = Matrix (- 1) 0 0 (- 1) 80 60"
  by (simp add: World_new_def createRotationAndTranslationMatrixRadians_def create_def)

lemma array_get_set:
  "array_get (array_set xs i v) (int j) = (if j = i then Some v else array_get xs (int j))"
proof (cases "i < length xs")
  case True
  then show ?thesis by (auto simp: array_get_def array_set_def)
next
  case False
  then show ?thesis
    by (auto simp: array_get_def array_set_def nth_append)
qed

lemma Shape_update_step_renderPoints:
  assumes "Shape_update_step w i s = Inr s'"
  shows "array_get (renderPoints s') (int j) =
           (if j = i
            then map_option (\<lambda>p. apply_matrix (toScreen w) (add (apply_matrix (xform s) p) (worldPos s)))
                   (array_get (the (points s)) (int i))
            else array_get (renderPoints s) (int j))"
  using assms
  by (auto simp: Shape_update_step_def Let_def array_get_set split: option.splits)

lemma Shape_update_from_beyond:
  assumes "Shape_update_from w i s = Inr s'" and "4 \<le> j"
  shows "array_get (renderPoints s') (int j) = array_get (renderPoints s) (int j)"
  using assms
proof (induction w i s rule: Shape_update_from.induct)
  case (1 w i s)
  show ?case
  proof (cases "i < 4")
    case False
    then show ?thesis using "1.prems" by simp
  next
    case True
    then obtain s1 where s1: "Shape_update_step w i s = Inr s1"
      and rest: "Shape_update_from w (Suc i) s1 = Inr s'"
      using "1.prems" by (auto split: sum.splits)
    have "array_get (renderPoints s') (int j) = array_get (renderPoints s1) (int j)"
      using "1.IH" [OF True s1 rest "1.prems"(2)] .
    also have "\<dots> = array_get (renderPoints s) (int j)"
      using Shape_update_step_renderPoints [OF s1, of j] True "1.prems"(2) by simp
    finally show ?thesis .
  qed
qed

lemma Shape_update_beyond_four:
  assumes "Shape_update w s = Inr s'" and "4 \<le> j"
  shows "array_get (renderPoints s') (int j) = array_get (renderPoints s) (int j)"
  using assms unfolding Shape_update_def by (rule Shape_update_from_beyond)

text \<open>
  C3. \<^verbatim>\<open>Shape.update\<close> should compute a render point for every vertex of the shape.
  The loop runs over the indices 0 to 3 whatever the number of vertices. For a shape
  of five vertices the update writes four render points and none at index 4; for a
  shape of three vertices it reads the missing vertex at index 3 and fails.
\<close>

theorem Shape_update_fixed_four:
  "Shape_update World_new pentagon =
     Inr (pentagon\<lparr>renderPoints :=
       [Some (Vector 80 52), Some (Vector 76 60), Some (Vector 78 64), Some (Vector 82 64)]\<rparr>) \<and>
   array_get
     [Some (Vector 80 52), Some (Vector 76 60), Some (Vector 78 64), Some (Vector 82 64)] 4 = None \<and>
   Shape_update World_new triangle = Inl TypeError"
  by (simp add: Shape_update_def Shape_update_step_def Let_def pentagon_def triangle_def
      Shape_new_def toScreen_new array_get_def array_set_def apply_matrix_def add_def
      identity_def zero_def create_def)

section \<open>Rendering\<close>

lemma render_pairs_from_step:
  "j < n - 1 \<Longrightarrow> render_pairs_from n j = (j, j + 1) # render_pairs_from n (j + 1)"
  by (subst render_pairs_from.simps) simp

lemma render_pairs_from_done: "\<not> j < n - 1 \<Longrightarrow> render_pairs_from n j = []"
  by (subst render_pairs_from.simps) simp

lemma Shape_render_from_step:
  "j < n - 1 \<Longrightarrow>
   Shape_render_from s n j i =
     (case drawLine s i j (j + 1) of
        Inl e \<Rightarrow> Inl e
      | Inr i1 \<Rightarrow> Shape_render_from s n (j + 1) i1)"
  by (subst Shape_render_from.simps) simp

lemma Shape_render_from_done: "\<not> j < n - 1 \<Longrightarrow> Shape_render_from s n j i = Inr i"
  by (subst Shape_render_from.simps) simp

lemma Shape_render_from_pairs:
  "Shape_render_from s n j i = draw_all s i (render_pairs_from n j)"
proof (induction s n j i rule: Shape_render_from.induct)
  case (1 s n j i)
  show ?case
  proof (cases "j < n - 1")
    case False
    then show ?thesis by (simp add: Shape_render_from_done render_pairs_from_done)
  next
    case True
    show ?thesis
    proof (cases "drawLine s i j (j + 1)")
      case (Inl e)
      then show ?thesis
        by (simp add: Shape_render_from_step [OF True] render_pairs_from_step [OF True])
    next
      case (Inr i1)
      then show ?thesis
        using "1.IH" [OF True Inr]
        by (simp add: Shape_render_from_step [OF True] render_pairs_from_step [OF True])
    qed
  qed
qed

lemma draw_all_append:
  "draw_all s i (xs @ ys) =
     (case draw_all s i xs of Inl e \<Rightarrow> Inl e | Inr i1 \<Rightarrow> draw_all s i1 ys)"
  by (induction xs arbitrary: i) (auto split: sum.splits)

lemma Shape_render_pairs:
  assumes "points s = Some ps"
  shows "Shape_render s i = draw_all s i (render_pairs (int (length ps)))"
  using assms
  by (auto simp: Shape_render_def render_pairs_def Shape_render_from_pairs draw_all_append
      split: sum.splits)

lemma set_render_pairs_from:
  "set (render_pairs_from n j) = (\<lambda>k. (k, k + 1)) ` {j..n - 2}"
proof (induction n j rule: render_pairs_from.induct)
  case (1 n j)
  show ?case
  proof (cases "j < n - 1")
    case False
    then show ?thesis by (simp add: render_pairs_from_done)
  next
    case True
    have e: "{j..n - 2} = insert j {j + 1..n - 2}" using True by auto
    have "set (render_pairs_from n j) = insert (j, j + 1) (set (render_pairs_from n (j + 1)))"
      by (simp add: render_pairs_from_step [OF True])
    also have "\<dots> = insert (j, j + 1) ((\<lambda>k. (k, k + 1)) ` {j + 1..n - 2})"
      by (simp only: "1.IH" [OF True])
    also have "\<dots> = (\<lambda>k. (k, k + 1)) ` {j..n - 2}"
      by (subst e) (simp only: image_insert)
    finally show ?thesis .
  qed
qed

lemma render_reads_range:
  assumes "0 < n"
  shows "render_reads n = {0..n - 1}"
proof -
  have a: "fst ` set (render_pairs_from n 0) = {0..n - 2}"
    by (simp add: set_render_pairs_from image_image)
  have "snd ` set (render_pairs_from n 0) = (\<lambda>k. k + 1) ` {0..n - 2}"
    by (simp add: set_render_pairs_from image_image)
  also have "\<dots> = {1..n - 1}"
    by (auto simp: image_iff)
  finally have b: "snd ` set (render_pairs_from n 0) = {1..n - 1}" .
  have "render_reads n = {0..n - 2} \<union> {n - 1} \<union> ({1..n - 1} \<union> {0})"
    unfolding render_reads_def render_pairs_def using a b by (simp add: image_Un Un_commute)
  also have "\<dots> = {0..n - 1}" using assms by auto
  finally show ?thesis .
qed

lemma drawLine_empty:
  "renderPoints s = [] \<Longrightarrow> drawLine s i f t = Inl TypeError"
  by (simp add: drawLine_def array_get_def)

lemma Shape_render_empty:
  assumes "renderPoints s = []"
  shows "Shape_render s i = Inl TypeError"
proof (cases "points s")
  case None
  then show ?thesis by (simp add: Shape_render_def)
next
  case (Some ps)
  have "draw_all s i (xs @ [ft]) = Inl TypeError" for xs ft
  proof (cases xs)
    case Nil
    then show ?thesis by (simp add: drawLine_empty [OF assms])
  next
    case (Cons a as)
    then show ?thesis by (simp add: drawLine_empty [OF assms])
  qed
  then show ?thesis
    by (simp add: Shape_render_pairs [OF Some] render_pairs_def)
qed

lemma Craft_update_renderPoints:
  assumes "Craft_update ctl w c = Inr (effs, c')"
  shows "\<exists>c1. Shape_update w c = Inr c1 \<and> renderPoints c' = renderPoints c1"
  using assms
  by (auto simp: Craft_update_def Let_def split_def updateEffects_def handleInput_def
      applyThrust_def releaseThrust_def split: sum.splits)

text \<open>
  C10. The render-point cache of a newly constructed shape or craft is empty, and
  only \<^verbatim>\<open>Shape.update\<close> writes to it: the rest of the craft's update and the world's
  \<^verbatim>\<open>add\<close> and \<^verbatim>\<open>remove\<close> leave it as it is. \<^verbatim>\<open>Shape.render\<close> makes the
  \<^verbatim>\<open>drawLine\<close> calls of \<open>render_pairs\<close>, which for a shape of \<open>n > 0\<close> points read the
  render points at exactly the indices 0 to \<open>n - 1\<close>. So \<^verbatim>\<open>render\<close> on a shape whose
  cache is still empty reads a render point that was never written, and fails.
\<close>

theorem render_needs_update:
  "renderPoints Shape_new = [] \<and>
   renderPoints Craft_new = [] \<and>
   (points s = Some ps \<longrightarrow> Shape_render s img = draw_all s img (render_pairs (int (length ps)))) \<and>
   (0 < n \<longrightarrow> render_reads n = {0..n - 1}) \<and>
   (renderPoints s = [] \<longrightarrow> Shape_render s img = Inl TypeError) \<and>
   (Craft_update ctl w c = Inr (effs, c') \<longrightarrow>
      (\<exists>c1. Shape_update w c = Inr c1 \<and> renderPoints c' = renderPoints c1)) \<and>
   renderPoints (snd (World_add (w, h) r) q) = renderPoints (h q) \<and>
   renderPoints (snd (World_remove (w, h) r) q) = renderPoints (h q)"
proof (intro conjI impI)
  show "renderPoints Shape_new = []" by (simp add: Shape_new_def)
  show "renderPoints Craft_new = []" by (simp add: Craft_new_def Shape_new_def)
  show "Shape_render s img = draw_all s img (render_pairs (int (length ps)))"
    if "points s = Some ps" using that by (rule Shape_render_pairs)
  show "render_reads n = {0..n - 1}" if "0 < n" using that by (rule render_reads_range)
  show "Shape_render s img = Inl TypeError" if "renderPoints s = []"
    using that by (rule Shape_render_empty)
  show "\<exists>c1. Shape_update w c = Inr c1 \<and> renderPoints c' = renderPoints c1"
    if "Craft_update ctl w c = Inr (effs, c')" using that by (rule Craft_update_renderPoints)
  show "renderPoints (snd (World_add (w, h) r) q) = renderPoints (h q)"
    by (simp add: World_add_def Let_def)
  show "renderPoints (snd (World_remove (w, h) r) q) = renderPoints (h q)"
    by (simp add: World_remove_def Let_def)
qed

lemma render_pairs_four: "render_pairs 4 = [(0, 1), (1, 2), (2, 3), (3, 0)]"
  by (simp add: render_pairs_def render_pairs_from.simps)

lemma Shape_update_Craft_new:
  "Shape_update World_new Craft_new =
     Inr (Craft_new\<lparr>renderPoints :=
       [Some (Vector 80 52), Some (Vector 76 60), Some (Vector 80 62), Some (Vector 84 60)]\<rparr>)"
  by (simp add: Shape_update_def Shape_update_step_def Let_def Craft_new_def
      Shape_new_def toScreen_new array_get_def array_set_def apply_matrix_def add_def
      identity_def zero_def create_def)

theorem render_needs_update_witness:
  "points Craft_new =
     Some [Some (create 0 8), Some (create 4 0), Some (create 0 (- 2)), Some (create (- 4) 0)] \<and>
   Shape_render Craft_new [] = draw_all Craft_new [] [(0, 1), (1, 2), (2, 3), (3, 0)] \<and>
   (0 :: int) < 4 \<and>
   render_reads 4 = {0..3} \<and>
   renderPoints Craft_new = [] \<and>
   Shape_render Craft_new [] = Inl TypeError \<and>
   (\<exists>effs c' c1.
      Craft_update \<lparr>A_isPressed = False, left_isPressed = False, right_isPressed = False\<rparr>
        World_new Craft_new = Inr (effs, c') \<and>
      Shape_update World_new Craft_new = Inr c1 \<and>
      renderPoints c' = renderPoints c1 \<and>
      Shape_render c1 [] =
        Inr [Line 80 52 76 60 2, Line 76 60 80 62 2, Line 80 62 84 60 2, Line 84 60 80 52 2])"
proof -
  let ?ctl = "\<lparr>A_isPressed = False, left_isPressed = False, right_isPressed = False\<rparr>"
  obtain effs c' where u: "Craft_update ?ctl World_new Craft_new = Inr (effs, c')"
    using Craft_update_new_total by blast
  note t = render_needs_update [where s = Craft_new and img = "[]" and n = 4
      and ps = "[Some (create 0 8), Some (create 4 0), Some (create 0 (- 2)), Some (create (- 4) 0)]"
      and ctl = ?ctl and w = World_new and c = Craft_new and effs = effs and c' = c']
  have p: "points Craft_new =
     Some [Some (create 0 8), Some (create 4 0), Some (create 0 (- 2)), Some (create (- 4) 0)]"
    by (rule Craft_new_points)
  have e: "renderPoints Craft_new = []" using t by blast
  have len: "int (length [Some (create 0 8), Some (create 4 0), Some (create 0 (- 2)),
      Some (create (- 4) 0)]) = 4" by simp
  have "Shape_render Craft_new [] = draw_all Craft_new []
      (render_pairs (int (length [Some (create 0 8), Some (create 4 0), Some (create 0 (- 2)),
         Some (create (- 4) 0)])))"
    by (rule mp [OF conjunct1 [OF conjunct2 [OF conjunct2 [OF t]]] p])
  then have a: "Shape_render Craft_new [] = draw_all Craft_new [] [(0, 1), (1, 2), (2, 3), (3, 0)]"
    unfolding len render_pairs_four .
  have "render_reads 4 = {0..4 - 1}"
    by (rule mp [OF conjunct1 [OF conjunct2 [OF conjunct2 [OF conjunct2 [OF t]]]]]) simp
  then have b: "render_reads 4 = {0..3}" by simp
  have f: "Shape_render Craft_new [] = Inl TypeError" using t e by blast
  obtain c1 where c1: "Shape_update World_new Craft_new = Inr c1"
    and rp: "renderPoints c' = renderPoints c1"
    using t u by blast
  have "Shape_render c1 [] =
        Inr [Line 80 52 76 60 2, Line 76 60 80 62 2, Line 80 62 84 60 2, Line 84 60 80 52 2]"
    using c1 unfolding Shape_update_Craft_new
    by (auto simp: Shape_render_def Shape_render_from.simps drawLine_def array_get_def
        Craft_new_def)
  moreover have "(0 :: int) < 4" by simp
  ultimately show ?thesis using p a b e f u c1 rp by blast
qed

section \<open>Rounding\<close>






























section \<open>The speed cap in double arithmetic\<close>































end
